theory Spec2Isabelle
  imports Main "HOL-Library.AList"
begin

section \<open>Memory model\<close>

text \<open>
  A Go pointer \<open>*T\<close> is either \<open>nil\<close> or the address of a variable of type \<open>T\<close>.
  The variables of one type live in a typed heap: a total map from addresses to values,
  the allocation boundary \<open>brk\<close> (every address from it on is free) and \<open>esize\<close>, the
  size of \<open>T\<close> in bytes (\<open>unsafe.Sizeof\<close>). Addresses count bytes. Taking the address of
  a local variable that outlives its function (\<open>&v\<close>) allocates: for a type of non-zero
  size the next free cell, for a type of size zero the one address \<open>zerobase\<close> that the
  runtime hands out for every allocation of size zero. Go leaves open whether pointers
  to distinct zero-size variables differ; the runtime makes them equal on the heap. A type
  of size zero has one value, so the store into \<open>zerobase\<close> that the model performs
  changes nothing there.

  The element type \<open>T\<close> is a HOL type of class \<open>zero\<close>; \<open>0\<close> is Go's zero value of
  \<open>T\<close> (\<open>var zero T\<close>). The class has no axioms, so this restricts nothing.
\<close>

type_synonym addr = nat

type_synonym ptr = "addr option"

record 'a heap =
  cells :: "addr \<Rightarrow> 'a"
  brk :: addr
  esize :: nat

text \<open>The zero value of a pointer type is \<open>nil\<close>.\<close>

instantiation option :: (type) zero
begin

definition zero_option :: "'a option" where
  "zero_option = None"

instance ..

end

definition zerobase :: addr where
  "zerobase = 0"

definition alloc :: "'a heap \<Rightarrow> 'a \<Rightarrow> addr \<times> 'a heap" where
  "alloc h v =
     (if esize h = 0 then (zerobase, h\<lparr>cells := (cells h)(zerobase := v)\<rparr>)
      else (brk h, h\<lparr>cells := (cells h)(brk h := v), brk := brk h + esize h\<rparr>))"

definition store :: "'a heap \<Rightarrow> addr \<Rightarrow> 'a \<Rightarrow> 'a heap" where
  "store h a v = h\<lparr>cells := (cells h)(a := v)\<rparr>"

text \<open>A type of size zero has a single value.\<close>

definition zero_size_ok :: "'a heap \<Rightarrow> bool" where
  "zero_size_ok h = (esize h = 0 \<longrightarrow> (\<forall>v w :: 'a. v = w))"

section \<open>The generic core (ptr.go)\<close>

text \<open>
  The panics of the package and of the Go runtime. \<open>==\<close> on \<open>T\<close> is defined by the
  language for each type and is a parameter \<open>eq\<close> of \<open>Equal\<close>: it need not be
  reflexive (a floating-point NaN differs from itself) and it panics on interface values
  whose common dynamic type is not comparable.
\<close>

datatype error =
  NilPointerPassed    \<comment> \<open>\<open>panic("ptr: nil pointer passed to MustFrom")\<close>\<close>
  | NilFuncCall       \<comment> \<open>calling a \<open>nil\<close> function value\<close>
  | NilDereference    \<comment> \<open>reading or writing through a \<open>nil\<close> pointer\<close>
  | IndexOutOfRange   \<comment> \<open>indexing a slice at or beyond its length\<close>
  | NilMapAssignment  \<comment> \<open>assignment to an entry of a \<open>nil\<close> map\<close>
  | Uncomparable      \<comment> \<open>\<open>==\<close> on interface values of an uncomparable dynamic type\<close>

definition To :: "'a heap \<Rightarrow> 'a \<Rightarrow> ptr \<times> 'a heap" where
  "To h v = (let (a, h') = alloc h v in (Some a, h'))"

definition From :: "'a::zero heap \<Rightarrow> ptr \<Rightarrow> 'a" where
  "From h p = (case p of None \<Rightarrow> 0 | Some a \<Rightarrow> cells h a)"

definition FromOr :: "'a heap \<Rightarrow> ptr \<Rightarrow> 'a \<Rightarrow> 'a" where
  "FromOr h p defaultValue = (case p of None \<Rightarrow> defaultValue | Some a \<Rightarrow> cells h a)"

definition Equal :: "('a \<Rightarrow> 'a \<Rightarrow> error + bool) \<Rightarrow> 'a heap \<Rightarrow> ptr \<Rightarrow> ptr \<Rightarrow> error + bool" where
  "Equal eq h a b =
     (if a = None \<and> b = None then Inr True
      else if a = None \<or> b = None then Inr False
      else (case (a, b) of
              (Some x, Some y) \<Rightarrow> eq (cells h x) (cells h y)
            | _ \<Rightarrow> Inr False))"

definition Copy :: "'a heap \<Rightarrow> ptr \<Rightarrow> ptr \<times> 'a heap" where
  "Copy h p =
     (case p of
        None \<Rightarrow> (None, h)
      | Some a \<Rightarrow> (let v = cells h a; (c, h') = alloc h v in (Some c, h')))"



fun Coalesce :: "ptr list \<Rightarrow> ptr" where
  "Coalesce [] = None"
| "Coalesce (p # ptrs) = (if p \<noteq> None then p else Coalesce ptrs)"

definition Set :: "'a heap \<Rightarrow> ptr \<Rightarrow> 'a \<Rightarrow> bool \<times> 'a heap" where
  "Set h p v = (case p of None \<Rightarrow> (False, h) | Some a \<Rightarrow> (True, store h a v))"


section \<open>Collection conversions\<close>

text \<open>
  A slice is \<open>nil\<close> or a header: the address of its first element and its length
  (the capacity plays no role here). Element \<open>i\<close> of a slice of \<open>T\<close> with base \<open>b\<close> is
  the cell \<open>b + i * esize\<close>, so \<open>&values[i]\<close> is that address; for a type of size zero
  all elements share the address \<open>b\<close>. A \<open>[]T\<close> lives in the heap of \<open>T\<close>, a \<open>[]*T\<close> in
  the heap of pointers. \<open>make\<close> allocates \<open>n\<close> zeroed elements; an allocation of no
  bytes returns \<open>zerobase\<close>. The loops run over \<open>[0..<n]\<close>, the indices of \<open>range\<close>.

  A map is \<open>nil\<close> or a list of entries in the order \<open>range\<close> visits them (an order Go
  does not fix); the keys of a well-formed map are distinct. Map entries are not
  addressable: no pointer leads into a map, so a map is a value here and not a heap region.
  \<open>result[k] = x\<close> is \<open>AList.update k x result\<close>.
\<close>

type_synonym slice = "(addr \<times> nat) option"

definition make :: "'a::zero heap \<Rightarrow> nat \<Rightarrow> addr \<times> 'a heap" where
  "make h n =
     (if n * esize h = 0 then (zerobase, h)
      else (brk h,
            h\<lparr>cells := (\<lambda>x. if brk h \<le> x \<and> x < brk h + n * esize h then 0 else cells h x),
              brk := brk h + n * esize h\<rparr>))"

definition ToSlice :: "ptr heap \<Rightarrow> 'a heap \<Rightarrow> slice \<Rightarrow> slice \<times> ptr heap" where
  "ToSlice hp hv values =
     (case values of
        None \<Rightarrow> (None, hp)
      | Some (b, n) \<Rightarrow>
          (let (rb, hp1) = make hp n;
               hp2 = fold (\<lambda>i hp. store hp (rb + i * esize hp) (Some (b + i * esize hv))) [0..<n] hp1
           in (Some (rb, n), hp2)))"

definition FromSlice :: "ptr heap \<Rightarrow> 'a::zero heap \<Rightarrow> slice \<Rightarrow> slice \<times> 'a heap" where
  "FromSlice hp hv ptrs =
     (case ptrs of
        None \<Rightarrow> (None, hv)
      | Some (b, n) \<Rightarrow>
          (let (rb, hv1) = make hv n;
               hv2 = fold (\<lambda>i hv. store hv (rb + i * esize hv) (From hv (cells hp (b + i * esize hp))))
                       [0..<n] hv1
           in (Some (rb, n), hv2)))"

definition elems :: "'a heap \<Rightarrow> addr \<times> nat \<Rightarrow> 'a list" where
  "elems h s = (case s of (b, n) \<Rightarrow> map (\<lambda>i. cells h (b + i * esize h)) [0..<n])"

type_synonym 'v gomap = "(string \<times> 'v) list option"

fun ToMap_loop :: "(string \<times> 'a) list \<Rightarrow> (string \<times> ptr) list \<Rightarrow> 'a heap \<Rightarrow> (string \<times> ptr) list \<times> 'a heap" where
  "ToMap_loop [] result h = (result, h)"
| "ToMap_loop ((k, v) # rest) result h =
     (let (a, h1) = alloc h v in ToMap_loop rest (AList.update k (Some a) result) h1)"

definition ToMap :: "'a heap \<Rightarrow> 'a gomap \<Rightarrow> ptr gomap \<times> 'a heap" where
  "ToMap h values =
     (case values of
        None \<Rightarrow> (None, h)
      | Some kvs \<Rightarrow> (let (result, h') = ToMap_loop kvs [] h in (Some result, h')))"

fun FromMap_loop :: "'a::zero heap \<Rightarrow> (string \<times> ptr) list \<Rightarrow> (string \<times> 'a) list \<Rightarrow> (string \<times> 'a) list" where
  "FromMap_loop h [] result = result"
| "FromMap_loop h ((k, p) # rest) result = FromMap_loop h rest (AList.update k (From h p) result)"

definition FromMap :: "'a::zero heap \<Rightarrow> ptr gomap \<Rightarrow> 'a gomap" where
  "FromMap h ptrs = (case ptrs of None \<Rightarrow> None | Some kps \<Rightarrow> Some (FromMap_loop h kps []))"

definition key_set :: "'v gomap \<Rightarrow> string set option" where
  "key_set m = map_option (\<lambda>kvs. fst ` set kvs) m"

section \<open>The operations with the runtime's checks\<close>






















section \<open>The type-specific wrappers\<close>







section \<open>Every exported operation as one call type\<close>




section \<open>Example memories and element types\<close>

text \<open>
  Address 0 is \<open>zerobase\<close>; the examples allocate from address 8 and their element types
  have size 8. \<open>example_heap\<close> holds the backing array of \<open>[]int{1, 2, 3}\<close> at addresses
  8, 16 and 24; \<open>example_ptrs\<close> holds the backing array of \<open>[]*int{&a[0], nil, &a[2]}\<close>.
  \<open>unit_heap\<close> is the heap of \<open>struct{}\<close>, of size zero.
\<close>

definition empty_heap :: "'a::zero heap" where
  "empty_heap = \<lparr>cells = (\<lambda>_. 0), brk = 8, esize = 8\<rparr>"

definition example_heap :: "int heap" where
  "example_heap = \<lparr>cells = (\<lambda>_. 0)(8 := 1, 16 := 2, 24 := 3), brk = 32, esize = 8\<rparr>"

definition example_ptrs :: "ptr heap" where
  "example_ptrs =
     \<lparr>cells = (\<lambda>_. None)(8 := Some 8, 16 := None, 24 := Some 24), brk = 32, esize = 8\<rparr>"

definition unit_heap :: "unit heap" where
  "unit_heap = \<lparr>cells = (\<lambda>_. ()), brk = 8, esize = 0\<rparr>"

text \<open>
  \<open>==\<close> on a type where it is plain equality (integers, strings, booleans, pointers);
  on a floating-point type, where NaN differs from everything, itself included; and on an
  interface type holding an \<open>int\<close> or a \<open>[]int\<close>, where two values of different dynamic
  type differ and two slices cannot be compared.
\<close>

definition eq_plain :: "'a \<Rightarrow> 'a \<Rightarrow> error + bool" where
  "eq_plain x y = Inr (x = y)"

datatype float = NaN | Finite int

fun eq_float :: "float \<Rightarrow> float \<Rightarrow> error + bool" where
  "eq_float NaN y = Inr False"
| "eq_float x NaN = Inr False"
| "eq_float (Finite x) (Finite y) = Inr (x = y)"

datatype dyn = DynNil | DynInt int | DynSlice "int list"

text \<open>The zero value of an interface type is the \<open>nil\<close> interface.\<close>

instantiation dyn :: zero
begin

definition zero_dyn :: dyn where
  "zero_dyn = DynNil"

instance ..

end

fun eq_dyn :: "dyn \<Rightarrow> dyn \<Rightarrow> error + bool" where
  "eq_dyn (DynSlice xs) (DynSlice ys) = Inl Uncomparable"
| "eq_dyn x y = Inr (x = y)"

definition nan_heap :: "float heap" where
  "nan_heap = \<lparr>cells = (\<lambda>_. NaN), brk = 16, esize = 8\<rparr>"

definition dyn_heap :: "dyn heap" where
  "dyn_heap = \<lparr>cells = (\<lambda>_. DynNil)(8 := DynSlice [1], 24 := DynSlice [1]), brk = 40, esize = 16\<rparr>"

section \<open>The checks of the runtime never fail behind the guards of the source\<close>








lemma esize_store: "esize (store h a v) = esize h"
  by (simp add: store_def)









section \<open>Facts about the loops\<close>

lemma brk_esize_ToSlice_loop:
  "brk (fold (\<lambda>i hp. store hp (rb + i * esize hp) (Some (b + i * e))) idx hp) = brk hp
   \<and> esize (fold (\<lambda>i hp. store hp (rb + i * esize hp) (Some (b + i * e))) idx hp) = esize hp"
  by (induction idx arbitrary: hp) (simp_all add: store_def)

lemma cells_store: "cells (store h a v) x = (if x = a then v else cells h x)"
  by (simp add: store_def)

lemma cells_ToSlice_loop:
  "0 < esize hp \<Longrightarrow> i < n \<Longrightarrow>
   cells (fold (\<lambda>i hp. store hp (rb + i * esize hp) (Some (b + i * e))) [0..<n] hp)
     (rb + i * esize hp) = Some (b + i * e)"
proof (induction n)
  case 0
  then show ?case by simp
next
  case (Suc n)
  let ?F = "\<lambda>i hp. store hp (rb + i * esize hp) (Some (b + i * e))"
  let ?h = "fold ?F [0..<n] hp"
  have es: "esize ?h = esize hp" by (simp add: brk_esize_ToSlice_loop)
  have "fold ?F [0..<Suc n] hp = store ?h (rb + n * esize ?h) (Some (b + n * e))"
    by simp
  then have st: "fold ?F [0..<Suc n] hp = store ?h (rb + n * esize hp) (Some (b + n * e))"
    by (simp only: es)
  show ?case
  proof (cases "i = n")
    case True
    then show ?thesis by (simp only: st cells_store) simp
  next
    case False
    then have "i < n" using Suc.prems by simp
    then have c: "cells ?h (rb + i * esize hp) = Some (b + i * e)"
      using Suc.IH Suc.prems(1) by simp
    have ne: "rb + i * esize hp \<noteq> rb + n * esize hp"
      using False Suc.prems(1) by simp
    show ?thesis using c ne by (simp only: st cells_store) simp
  qed
qed

lemma fst_ToSlice:
  "fst (ToSlice hp hv (Some (b, n))) = Some (if n * esize hp = 0 then zerobase else brk hp, n)"
  by (simp add: ToSlice_def make_def Let_def)

lemma elems_ToSlice:
  assumes "0 < esize hp"
  shows "elems (snd (ToSlice hp hv (Some (b, n)))) (if n = 0 then zerobase else brk hp, n)
           = map (\<lambda>i. Some (b + i * esize hv)) [0..<n]"
proof (cases "n = 0")
  case True
  then show ?thesis by (simp add: elems_def)
next
  case False
  define hp1 where "hp1 = snd (make hp n)"
  have m: "make hp n = (brk hp, hp1)" and e1: "esize hp1 = esize hp"
    using False assms by (simp_all add: hp1_def make_def)
  define h where
    "h = fold (\<lambda>i h. store h (brk hp + i * esize h) (Some (b + i * esize hv))) [0..<n] hp1"
  have r: "snd (ToSlice hp hv (Some (b, n))) = h"
    by (simp add: ToSlice_def Let_def m h_def)
  have es: "esize h = esize hp"
    by (simp add: h_def brk_esize_ToSlice_loop e1)
  have "\<forall>i<n. cells h (brk hp + i * esize hp) = Some (b + i * esize hv)"
    using cells_ToSlice_loop [of hp1 _ n "brk hp" b "esize hv"] assms by (simp add: e1 h_def)
  then show ?thesis
    using False by (simp add: r elems_def es)
qed

lemma elems_store:
  "0 < esize h \<Longrightarrow> i < n \<Longrightarrow>
   elems (store h (b + i * esize h) x) (b, n) = (elems h (b, n))[i := x]"
  by (rule nth_equalityI) (auto simp add: elems_def store_def nth_list_update)

lemma key_set_update: "fst ` set (AList.update k v al) = insert k (fst ` set al)"
proof -
  have "set (map fst (AList.update k v al)) = insert k (set (map fst al))"
    by (auto simp add: update_keys)
  then show ?thesis by simp
qed

lemma esize_ToMap_loop: "esize (snd (ToMap_loop kvs r h)) = esize h"
  by (induction kvs r h rule: ToMap_loop.induct) (simp_all add: alloc_def)

lemma brk_ToMap_loop: "brk (snd (ToMap_loop kvs r h)) = brk h + length kvs * esize h"
  by (induction kvs r h rule: ToMap_loop.induct) (simp_all add: alloc_def)

lemma cells_ToMap_loop_old:
  "0 < esize h \<Longrightarrow> x < brk h \<Longrightarrow> cells (snd (ToMap_loop kvs r h)) x = cells h x"
  by (induction kvs r h rule: ToMap_loop.induct) (simp_all add: alloc_def)

lemma map_of_ToMap_loop_other:
  "k \<notin> fst ` set kvs \<Longrightarrow> map_of (fst (ToMap_loop kvs r h)) k = map_of r k"
  by (induction kvs r h rule: ToMap_loop.induct) (auto simp add: alloc_def update_conv')

lemma key_set_ToMap_loop: "fst ` set (fst (ToMap_loop kvs r h)) = fst ` set r \<union> fst ` set kvs"
  by (induction kvs r h rule: ToMap_loop.induct) (simp_all add: alloc_def key_set_update)

lemma key_set_FromMap_loop: "fst ` set (FromMap_loop h kps r) = fst ` set r \<union> fst ` set kps"
  by (induction h kps r rule: FromMap_loop.induct) (simp_all add: key_set_update)

lemma ToMap_loop_zero_size:
  "esize h = 0 \<Longrightarrow> k \<in> fst ` set kvs \<or> map_of r k = Some (Some zerobase) \<Longrightarrow>
   map_of (fst (ToMap_loop kvs r h)) k = Some (Some zerobase)"
proof (induction kvs arbitrary: r h)
  case Nil
  then show ?case by simp
next
  case (Cons kv rest)
  obtain k0 v0 where kv: "kv = (k0, v0)" by (cases kv)
  define r1 where "r1 = AList.update k0 (Some zerobase) r"
  define h1 where "h1 = h\<lparr>cells := (cells h)(zerobase := v0)\<rparr>"
  have step: "ToMap_loop (kv # rest) r h = ToMap_loop rest r1 h1"
    using Cons.prems(1) by (simp add: kv alloc_def r1_def h1_def)
  have e1: "esize h1 = 0" using Cons.prems(1) by (simp add: h1_def)
  have "k \<in> fst ` set rest \<or> map_of r1 k = Some (Some zerobase)"
    using Cons.prems(2) by (auto simp add: kv r1_def update_conv')
  from Cons.IH [OF e1 this] show ?case by (simp only: step)
qed

lemma ToMap_loop_entry:
  "0 < esize h \<Longrightarrow> distinct (map fst kvs) \<Longrightarrow> map_of kvs k = Some v \<Longrightarrow>
   \<exists>a. map_of (fst (ToMap_loop kvs r h)) k = Some (Some a) \<and> brk h \<le> a
       \<and> a < brk h + length kvs * esize h \<and> cells (snd (ToMap_loop kvs r h)) a = v"
proof (induction kvs arbitrary: r h)
  case Nil
  then show ?case by simp
next
  case (Cons kv rest)
  obtain k0 v0 where kv: "kv = (k0, v0)" by (cases kv)
  define r1 where "r1 = AList.update k0 (Some (brk h)) r"
  define h1 where "h1 = h\<lparr>cells := (cells h)(brk h := v0), brk := brk h + esize h\<rparr>"
  have step: "ToMap_loop (kv # rest) r h = ToMap_loop rest r1 h1"
    using Cons.prems(1) by (simp add: kv alloc_def r1_def h1_def)
  have e1: "0 < esize h1" "esize h1 = esize h" "brk h1 = brk h + esize h"
    using Cons.prems(1) by (simp_all add: h1_def)
  have fresh: "k0 \<notin> fst ` set rest" and dist: "distinct (map fst rest)"
    using Cons.prems(2) by (simp_all add: kv)
  show ?case
  proof (cases "k = k0")
    case True
    then have v: "v = v0" using Cons.prems(3) by (simp add: kv)
    have "map_of (fst (ToMap_loop rest r1 h1)) k0 = map_of r1 k0"
      using fresh by (rule map_of_ToMap_loop_other)
    then have m: "map_of (fst (ToMap_loop rest r1 h1)) k0 = Some (Some (brk h))"
      by (simp add: r1_def update_conv')
    have "cells (snd (ToMap_loop rest r1 h1)) (brk h) = cells h1 (brk h)"
      using e1(1) by (rule cells_ToMap_loop_old) (simp add: e1 Cons.prems(1))
    then have c: "cells (snd (ToMap_loop rest r1 h1)) (brk h) = v0"
      by (simp add: h1_def)
    have "brk h < brk h + (length rest + 1) * esize h"
      using Cons.prems(1) by simp
    then show ?thesis
      using m c True v by (simp only: step) auto
  next
    case False
    then have "map_of rest k = Some v" using Cons.prems(3) by (simp add: kv)
    from Cons.IH [OF e1(1) dist this, of r1]
    obtain a where a: "map_of (fst (ToMap_loop rest r1 h1)) k = Some (Some a)"
      "brk h1 \<le> a" "a < brk h1 + length rest * esize h1" "cells (snd (ToMap_loop rest r1 h1)) a = v"
      by blast
    have "brk h \<le> a" "a < brk h + length (kv # rest) * esize h"
      using a(2,3) by (simp_all add: e1)
    with a(1,4) show ?thesis by (simp only: step) blast
  qed
qed

lemma Coalesce_all_nil: "\<forall>p\<in>set ptrs. p = None \<Longrightarrow> Coalesce ptrs = None"
  by (induction ptrs) simp_all

lemma Coalesce_first:
  "i < length ptrs \<Longrightarrow> ptrs ! i \<noteq> None \<Longrightarrow> \<forall>j<i. ptrs ! j = None \<Longrightarrow> Coalesce ptrs = ptrs ! i"
proof (induction ptrs arbitrary: i)
  case Nil
  then show ?case by simp
next
  case (Cons p ptrs)
  show ?case
  proof (cases i)
    case 0
    with Cons.prems show ?thesis by simp
  next
    case (Suc k)
    have hd: "p = None" using Cons.prems(3) Suc by auto
    have "\<forall>j<k. ptrs ! j = None"
    proof (intro allI impI)
      fix j assume "j < k"
      then have "Suc j < i" using Suc by simp
      then have "(p # ptrs) ! Suc j = None" using Cons.prems(3) by blast
      then show "ptrs ! j = None" by simp
    qed
    with Cons.IH [of k] Cons.prems Suc hd show ?thesis by simp
  qed
qed

lemma FromSlice_example:
  "fst (FromSlice example_ptrs example_heap (Some (8, 3))) = Some (32, 3)
   \<and> elems (snd (FromSlice example_ptrs example_heap (Some (8, 3)))) (32, 3) = [1, 0, 3]"
  by (simp add: FromSlice_def make_def example_ptrs_def example_heap_def elems_def upt_rec
      store_def From_def)

section \<open>Round trip\<close>

text \<open>
  Claim C1. For every value \<open>v\<close>, in every heap, \<open>From (To v)\<close> is \<open>v\<close>: extracting
  from the pointer that \<open>To\<close> has just built gives the value back.
\<close>

theorem From_To: "From (snd (To h v)) (fst (To h v)) = v"
  by (simp add: To_def From_def alloc_def)

section \<open>Slices of pointers\<close>

text \<open>
  Claim C2, as amended. For a non-nil slice \<open>values\<close> with base \<open>b\<close> and length \<open>n\<close>,
  \<open>ToSlice\<close> returns a slice of the same length whose \<open>i\<close>-th element is the non-nil
  pointer \<open>&values[i]\<close>, the address of the input's own element and not of a copy, which
  holds \<open>values[i]\<close>. When \<open>T\<close> has non-zero size the produced pointers are pairwise
  distinct; when it has size zero they are all equal. Writing \<open>x\<close> through the \<open>i\<close>-th
  one stores \<open>x\<close> in \<open>values[i]\<close> and changes no other element of the input. Pointers
  have non-zero size, and a type of size zero has one value.
\<close>

theorem ToSlice_points_into_input:
  "0 < esize hp \<and> zero_size_ok hv \<longrightarrow>
     fst (ToSlice hp hv (Some (b, n))) = Some (if n = 0 then zerobase else brk hp, n)
   \<and> elems (snd (ToSlice hp hv (Some (b, n)))) (if n = 0 then zerobase else brk hp, n)
       = map (\<lambda>i. Some (b + i * esize hv)) [0..<n]
   \<and> (0 < esize hv \<longrightarrow>
        distinct (elems (snd (ToSlice hp hv (Some (b, n)))) (if n = 0 then zerobase else brk hp, n)))
   \<and> (\<forall>i<n. From hv (Some (b + i * esize hv)) = elems hv (b, n) ! i)
   \<and> (\<forall>i<n. elems (snd (Set hv (Some (b + i * esize hv)) x)) (b, n) = (elems hv (b, n))[i := x])"
proof (intro impI)
  assume a: "0 < esize hp \<and> zero_size_ok hv"
  have h: "fst (ToSlice hp hv (Some (b, n))) = Some (if n = 0 then zerobase else brk hp, n)"
    using a by (simp add: fst_ToSlice)
  have e: "elems (snd (ToSlice hp hv (Some (b, n)))) (if n = 0 then zerobase else brk hp, n)
             = map (\<lambda>i. Some (b + i * esize hv)) [0..<n]"
    using a by (simp add: elems_ToSlice)
  have d: "0 < esize hv \<longrightarrow> distinct (map (\<lambda>i. Some (b + i * esize hv)) [0..<n])"
    by (simp add: distinct_map inj_on_def)
  have f: "\<forall>i<n. From hv (Some (b + i * esize hv)) = elems hv (b, n) ! i"
    by (simp add: From_def elems_def)
  have s: "\<forall>i<n. elems (snd (Set hv (Some (b + i * esize hv)) x)) (b, n) = (elems hv (b, n))[i := x]"
  proof (cases "esize hv = 0")
    case True
    then have one: "\<And>v w :: 'a. v = w" using a by (simp add: zero_size_ok_def)
    show ?thesis
    proof (intro allI impI)
      fix i assume "i < n"
      show "elems (snd (Set hv (Some (b + i * esize hv)) x)) (b, n) = (elems hv (b, n))[i := x]"
        by (rule nth_equalityI) (simp add: elems_def Set_def store_def, rule one)
    qed
  next
    case False
    then show ?thesis by (simp add: Set_def elems_store)
  qed
  show "fst (ToSlice hp hv (Some (b, n))) = Some (if n = 0 then zerobase else brk hp, n)
   \<and> elems (snd (ToSlice hp hv (Some (b, n)))) (if n = 0 then zerobase else brk hp, n)
       = map (\<lambda>i. Some (b + i * esize hv)) [0..<n]
   \<and> (0 < esize hv \<longrightarrow>
        distinct (elems (snd (ToSlice hp hv (Some (b, n)))) (if n = 0 then zerobase else brk hp, n)))
   \<and> (\<forall>i<n. From hv (Some (b + i * esize hv)) = elems hv (b, n) ! i)
   \<and> (\<forall>i<n. elems (snd (Set hv (Some (b + i * esize hv)) x)) (b, n) = (elems hv (b, n))[i := x])"
    using h e d f s by (simp only:)
qed

theorem ToSlice_points_into_input_witness:
  "0 < esize (empty_heap :: ptr heap) \<and> zero_size_ok example_heap
   \<and> fst (ToSlice empty_heap example_heap (Some (8, 3))) = Some (8, 3)
   \<and> elems (snd (ToSlice empty_heap example_heap (Some (8, 3)))) (8, 3) = [Some 8, Some 16, Some 24]
   \<and> From example_heap (Some 16) = 2
   \<and> elems (snd (Set example_heap (Some 16) 9)) (8, 3) = [1, 9, 3]"
  using ToSlice_points_into_input [of empty_heap example_heap 8 3 9]
  by (simp add: empty_heap_def example_heap_def zero_size_ok_def elems_def upt_rec From_def
      Set_def store_def)

text \<open>
  Claim C2 as stated says that each produced pointer holds a copy, so that a write
  through it leaves the input alone. On \<open>values = []int{1, 2, 3}\<close> the first produced
  pointer is the address of \<open>values[0]\<close>, and after \<open>Set\<close> stores 9 through it the
  input slice reads \<open>[9, 2, 3]\<close>.
\<close>

theorem ToSlice_aliases_input_counterexample:
  "elems example_heap (8, 3) = [1, 2, 3]
   \<and> cells (snd (ToSlice empty_heap example_heap (Some (8, 3)))) 8 = Some 8
   \<and> elems (snd (Set example_heap (cells (snd (ToSlice empty_heap example_heap (Some (8, 3)))) 8) 9))
        (8, 3) = [9, 2, 3]
   \<and> elems (snd (Set example_heap (cells (snd (ToSlice empty_heap example_heap (Some (8, 3)))) 8) 9))
        (8, 3) \<noteq> elems example_heap (8, 3)"
  by (simp add: ToSlice_def make_def empty_heap_def example_heap_def elems_def upt_rec Set_def
      store_def)

section \<open>Failure paths\<close>




section \<open>Shape of the converted collections\<close>

text \<open>
  Claim C4. Each of \<open>ToSlice\<close>, \<open>FromSlice\<close>, \<open>ToMap\<close>, \<open>FromMap\<close> returns \<open>nil\<close> on
  \<open>nil\<close>, a non-nil empty collection on a non-nil empty one, and otherwise a slice of
  the same length, or a map with exactly the same set of keys.
\<close>

theorem conversions_preserve_shape:
  "ToSlice hp hv None = (None, hp)
   \<and> fst (ToSlice hp hv (Some (b, 0))) = Some (zerobase, 0)
   \<and> fst (ToSlice hp hv (Some (b, n))) = Some (if n * esize hp = 0 then zerobase else brk hp, n)
   \<and> FromSlice hp hw None = (None, hw)
   \<and> fst (FromSlice hp hw (Some (b, 0))) = Some (zerobase, 0)
   \<and> fst (FromSlice hp hw (Some (b, n))) = Some (if n * esize hw = 0 then zerobase else brk hw, n)
   \<and> ToMap h None = (None, h)
   \<and> ToMap h (Some []) = (Some [], h)
   \<and> key_set (fst (ToMap h (Some kvs))) = Some (fst ` set kvs)
   \<and> FromMap hw None = None
   \<and> FromMap hw (Some []) = Some []
   \<and> key_set (FromMap hw (Some kps)) = Some (fst ` set kps)"
proof -
  have ts: "\<And>m. fst (ToSlice hp hv (Some (b, m))) = Some (if m * esize hp = 0 then zerobase else brk hp, m)"
    by (simp add: fst_ToSlice)
  have fs: "\<And>m. fst (FromSlice hp hw (Some (b, m))) = Some (if m * esize hw = 0 then zerobase else brk hw, m)"
    by (simp add: FromSlice_def make_def Let_def)
  have tm: "key_set (fst (ToMap h (Some kvs))) = Some (fst ` set kvs)"
  proof -
    obtain r h' where loop: "ToMap_loop kvs [] h = (r, h')" by (cases "ToMap_loop kvs [] h")
    have "fst ` set r = fst ` set kvs"
      using key_set_ToMap_loop [of kvs "[]" h] loop by simp
    then show ?thesis by (simp add: ToMap_def key_set_def loop)
  qed
  have fm: "key_set (FromMap hw (Some kps)) = Some (fst ` set kps)"
    by (simp add: FromMap_def key_set_def key_set_FromMap_loop)
  have nil: "ToSlice hp hv None = (None, hp)" "FromSlice hp hw None = (None, hw)"
    "ToMap h None = (None, h)" "FromMap hw None = None"
    by (simp_all add: ToSlice_def FromSlice_def ToMap_def FromMap_def)
  have emp: "ToMap h (Some []) = (Some [], h)" "FromMap hw (Some []) = Some []"
    by (simp_all add: ToMap_def FromMap_def)
  have ts0: "fst (ToSlice hp hv (Some (b, 0))) = Some (zerobase, 0)"
    using ts [of 0] by simp
  have fs0: "fst (FromSlice hp hw (Some (b, 0))) = Some (zerobase, 0)"
    using fs [of 0] by simp
  show ?thesis
    using nil emp ts0 ts [of n] fs0 fs [of n] tm fm by blast
qed

section \<open>Safe extraction\<close>

text \<open>
  Claim C5. \<open>From\<close> on \<open>nil\<close> is the zero value of \<open>T\<close> and \<open>FromOr\<close> on \<open>nil\<close>
  is the default, whatever the default is; on a pointer to a cell both are the value
  held there. Both are total functions with no error result: neither can fail.
\<close>

theorem From_FromOr_spec:
  "From h None = 0 \<and> FromOr h None d = d
   \<and> From h (Some a) = cells h a \<and> FromOr h (Some a) d = cells h a"
  by (simp add: From_def FromOr_def)

section \<open>Comparison\<close>

text \<open>
  Claim C6, as amended. \<open>Equal a b\<close> returns true when both pointers are \<open>nil\<close> and
  false when exactly one is. Otherwise its outcome is the outcome of \<open>==\<close> on the two
  held values: the result of the comparison where it has one (false for a NaN compared
  with itself), and its panic where it panics.
\<close>

theorem Equal_spec:
  "Equal eq h None None = Inr True
   \<and> Equal eq h None (Some y) = Inr False
   \<and> Equal eq h (Some x) None = Inr False
   \<and> Equal eq h (Some x) (Some y) = eq (cells h x) (cells h y)"
  by (simp add: Equal_def)

theorem Equal_spec_witness:
  "Equal eq_plain example_heap (Some 8) (Some 8) = Inr True
   \<and> Equal eq_plain example_heap (Some 8) (Some 16) = Inr False
   \<and> Equal eq_float nan_heap (Some 8) (Some 8) = Inr False
   \<and> Equal eq_plain example_heap None (Some 8) = Inr False"
  using Equal_spec [where eq = eq_plain and h = example_heap and x = 8 and y = 8]
    Equal_spec [where eq = eq_plain and h = example_heap and x = 8 and y = 16]
    Equal_spec [where eq = eq_float and h = nan_heap and x = 8 and y = 8]
  by (simp add: eq_plain_def example_heap_def nan_heap_def)

text \<open>
  Claim C6 as stated says that \<open>Equal\<close> returns a truth value for every pair of
  pointers of a comparable type. At an interface type, on two pointers whose held values
  are slices, the comparison panics and \<open>Equal\<close> with it.
\<close>

theorem Equal_panics_counterexample:
  "Equal eq_dyn dyn_heap (Some 8) (Some 24) = Inl Uncomparable"
  by (simp add: Equal_def dyn_heap_def)

section \<open>Shallow copy\<close>

text \<open>
  Claim C7, as amended. \<open>Copy\<close> of \<open>nil\<close> is \<open>nil\<close> and leaves the heap as it is. For
  a pointer to a variable, \<open>Copy\<close> returns a non-nil pointer holding the value the
  original holds; the value is copied as it is, so an address stored in it still refers to
  the same cell. When \<open>T\<close> has non-zero size the pointer is new, different from the
  original; when \<open>T\<close> has size zero it is \<open>zerobase\<close>, which the original may be too.
  Overwriting the original with \<open>Set\<close> afterwards changes what the original holds and
  not what the copy holds.
\<close>

theorem Copy_spec:
  "Copy h None = (None, h)
   \<and> (zero_size_ok h \<and> (0 < esize h \<longrightarrow> a < brk h) \<longrightarrow>
        fst (Copy h (Some a)) = Some (if esize h = 0 then zerobase else brk h)
        \<and> (0 < esize h \<longrightarrow> fst (Copy h (Some a)) \<noteq> Some a)
        \<and> From (snd (Copy h (Some a))) (fst (Copy h (Some a))) = cells h a
        \<and> From (snd (Copy h (Some a))) (Some a) = cells h a
        \<and> From (snd (Set (snd (Copy h (Some a))) (Some a) x)) (Some a) = x
        \<and> From (snd (Set (snd (Copy h (Some a))) (Some a) x)) (fst (Copy h (Some a))) = cells h a)"
proof (cases "esize h = 0")
  case True
  have "zero_size_ok h \<Longrightarrow> (\<And>v w :: 'a. v = w)"
    using True by (simp add: zero_size_ok_def)
  then have one: "zero_size_ok h \<Longrightarrow> x = cells h a" by blast
  show ?thesis
    using True one by (auto simp add: Copy_def alloc_def From_def Set_def store_def Let_def)
next
  case False
  then show ?thesis
    by (auto simp add: Copy_def alloc_def From_def Set_def store_def Let_def)
qed

theorem Copy_spec_witness:
  "Copy example_heap None = (None, example_heap)
   \<and> zero_size_ok example_heap \<and> (16::nat) < brk example_heap
   \<and> fst (Copy example_heap (Some 16)) = Some 32
   \<and> From (snd (Copy example_heap (Some 16))) (Some 32) = 2
   \<and> From (snd (Set (snd (Copy example_heap (Some 16))) (Some 16) 100)) (Some 16) = 100
   \<and> From (snd (Set (snd (Copy example_heap (Some 16))) (Some 16) 100)) (Some 32) = 2"
  using Copy_spec [of example_heap 16 100]
  by (simp add: example_heap_def zero_size_ok_def Copy_def alloc_def From_def Set_def store_def)

text \<open>
  Claim C7 as stated says that the copy is a new pointer for every non-nil pointer. At
  \<open>T = struct{}\<close> the copy of \<open>To(struct{}{})\<close> is the pointer itself.
\<close>

theorem Copy_zero_size_counterexample:
  "fst (To unit_heap ()) = Some zerobase
   \<and> fst (Copy (snd (To unit_heap ())) (fst (To unit_heap ()))) = fst (To unit_heap ())"
  by (simp add: To_def Copy_def alloc_def unit_heap_def)

section \<open>First non-nil pointer\<close>

text \<open>
  Claim C8. \<open>Coalesce\<close> with no arguments is \<open>nil\<close>; it is \<open>nil\<close> when every argument
  is \<open>nil\<close>; and when argument \<open>i\<close> is non-nil and all arguments before it are \<open>nil\<close>,
  it is argument \<open>i\<close>.
\<close>

theorem Coalesce_spec:
  "Coalesce [] = None
   \<and> ((\<forall>p\<in>set ptrs. p = None) \<longrightarrow> Coalesce ptrs = None)
   \<and> (\<forall>i<length ptrs. ptrs ! i \<noteq> None \<and> (\<forall>j<i. ptrs ! j = None) \<longrightarrow> Coalesce ptrs = ptrs ! i)"
  using Coalesce_all_nil [of ptrs] Coalesce_first [of _ ptrs] by auto

theorem Coalesce_spec_witness:
  "Coalesce [None, None, Some 8, Some 16] = Some 8 \<and> Coalesce [None, None] = None \<and> Coalesce [] = None"
  using Coalesce_spec [of "[None, None, Some 8, Some 16]"] Coalesce_spec [of "[None, None]"]
  by simp

section \<open>Maps of pointers\<close>

text \<open>
  Claim C9, as amended. For a non-nil map with distinct keys and a key \<open>k\<close> with value
  \<open>v\<close> in it, \<open>ToMap\<close> returns a non-nil map whose entry at \<open>k\<close> is a non-nil pointer
  holding \<open>v\<close>, and the variables that existed before keep their values. When \<open>T\<close> has
  non-zero size the pointer is to a cell allocated by this call, at or above the old
  allocation boundary; when \<open>T\<close> has size zero it is \<open>zerobase\<close>, which pointers that
  existed before may be too. \<open>Set\<close> through the pointer succeeds, stores the new value in
  its cell and changes no other cell. The input map is a value that no cell of the heap
  belongs to, so its entry at \<open>k\<close> is still \<open>v\<close>.
\<close>

theorem ToMap_entry_copy:
  assumes "distinct (map fst kvs)" and "map_of kvs k = Some v" and "zero_size_ok h"
  shows "\<exists>r h' a. ToMap h (Some kvs) = (Some r, h') \<and> map_of r k = Some (Some a)
           \<and> From h' (Some a) = v
           \<and> (0 < esize h \<longrightarrow> brk h \<le> a \<and> a < brk h')
           \<and> (\<forall>x. (0 < esize h \<longrightarrow> x < brk h) \<longrightarrow> cells h' x = cells h x)
           \<and> fst (Set h' (Some a) w) = True
           \<and> From (snd (Set h' (Some a) w)) (Some a) = w
           \<and> (\<forall>x. x \<noteq> a \<longrightarrow> cells (snd (Set h' (Some a) w)) x = cells h' x)"
proof -
  obtain r h' where loop: "ToMap_loop kvs [] h = (r, h')" by (cases "ToMap_loop kvs [] h")
  have tm: "ToMap h (Some kvs) = (Some r, h')"
    by (simp add: ToMap_def loop)
  show ?thesis
  proof (cases "esize h = 0")
    case True
    then have one: "\<And>v w :: 'a. v = w" using assms(3) by (simp add: zero_size_ok_def)
    have "k \<in> fst ` set kvs"
      using assms(2) by (metis map_of_SomeD fst_conv image_eqI)
    then have "map_of (fst (ToMap_loop kvs [] h)) k = Some (Some zerobase)"
      using True by (simp add: ToMap_loop_zero_size)
    then have m: "map_of r k = Some (Some zerobase)" by (simp add: loop)
    have v: "From h' (Some zerobase) = v" by (rule one)
    have old: "\<forall>x. cells h' x = cells h x" using one by blast
    show ?thesis
      using tm m v old True by (auto simp add: From_def Set_def store_def)
  next
    case False
    then have pos: "0 < esize h" by simp
    from ToMap_loop_entry [OF pos assms(1,2), of "[]"] loop
    obtain a where a: "map_of r k = Some (Some a)" "brk h \<le> a" "a < brk h + length kvs * esize h"
      "cells h' a = v"
      by auto
    have b: "brk h' = brk h + length kvs * esize h"
      using brk_ToMap_loop [of kvs "[]" h] loop by simp
    have old: "\<forall>x<brk h. cells h' x = cells h x"
      using cells_ToMap_loop_old [OF pos, of _ kvs "[]"] loop by simp
    show ?thesis
      using tm a b old pos by (auto simp add: From_def Set_def store_def)
  qed
qed

theorem ToMap_entry_copy_witness:
  "distinct (map fst [(''a'', 1::int), (''b'', 2)])
   \<and> map_of [(''a'', 1::int), (''b'', 2)] ''b'' = Some 2
   \<and> zero_size_ok example_heap
   \<and> ToMap example_heap (Some [(''a'', 1), (''b'', 2)])
       = (Some [(''a'', Some 32), (''b'', Some 40)],
          \<lparr>cells = (\<lambda>_. 0)(8 := 1, 16 := 2, 24 := 3, 32 := 1, 40 := 2), brk = 48, esize = 8\<rparr>)"
  using ToMap_entry_copy [of "[(''a'', 1::int), (''b'', 2)]" "''b''" 2 example_heap 7]
  by (simp add: ToMap_def alloc_def example_heap_def zero_size_ok_def)

text \<open>
  Claim C9 as stated says that the entry is a pointer to a freshly allocated copy. At
  \<open>T = struct{}\<close> the entry of \<open>ToMap\<close> is equal to a pointer that \<open>To\<close> returned
  before the call.
\<close>

theorem ToMap_zero_size_counterexample:
  "fst (To unit_heap ()) = Some zerobase
   \<and> fst (ToMap (snd (To unit_heap ())) (Some [(''a'', ())])) = Some [(''a'', fst (To unit_heap ()))]"
  by (simp add: To_def ToMap_def alloc_def unit_heap_def)

section \<open>From as an instance of FromOr\<close>

text \<open>
  Claim C10. \<open>From\<close> is \<open>FromOr\<close> at the zero-value default, for every pointer,
  \<open>nil\<close> or not.
\<close>

theorem From_eq_FromOr_zero: "From h p = FromOr h p 0"
  by (simp add: From_def FromOr_def)

end
